theory Spec2Isabelle
  imports Main
begin

section \<open>Python values and the remote interface\<close>

text \<open>
  The client talks JSON to the engine, so the values that travel through a handle are
  JSON-shaped Python values. Python does not enforce the annotations of
  \<^verbatim>\<open>chat.py\<close> at run time: a field holds whatever value was passed in, so the
  identifiers are kept as values of this type and not narrowed to integers.
\<close>

datatype pyval =
    PNone
  | PBool bool
  | PInt int
  | PStr string
  | PList "pyval list"
  | PDict "(string \<times> pyval) list"

text \<open>
  One remote invocation, as the handle sees it: the object the \<^verbatim>\<open>rpc\<close> field
  points to, the attribute name that is called on it, and the positional arguments.
\<close>

type_synonym 'r invocation = "'r \<times> string \<times> pyval list"

text \<open>
  The class \<^verbatim>\<open>Rpc\<close> lives in \<^verbatim>\<open>rpc.py\<close>, which is not part of the sources
  at hand. Its behaviour is therefore a parameter of every operation: given the rpc
  object, the method name, the arguments and the state of the world behind the
  connection, awaiting the call either raises (\<open>Inl\<close>) or returns a value (\<open>Inr\<close>), and
  leaves a new state of the world. Looking the method up on the rpc object, calling it
  and awaiting the result are all part of this parameter, and nothing is assumed about
  it. The arguments it receives are the values passed, never the handle, so it has no
  way to assign to the handle's fields.
\<close>

type_synonym ('r, 'w, 'e) remote = "'r \<Rightarrow> string \<Rightarrow> pyval list \<Rightarrow> 'w \<Rightarrow> ('e + pyval) \<times> 'w"

text \<open>
  The state an operation runs in: the world behind the connection, and the list of
  invocations made so far, which records how often and with what arguments the rpc
  object has been called.
\<close>

record ('r, 'w) world =
  invocations :: "'r invocation list"
  engine :: 'w

definition await_rpc ::
  "('r, 'w, 'e) remote \<Rightarrow> 'r \<Rightarrow> string \<Rightarrow> pyval list \<Rightarrow> ('r, 'w) world
     \<Rightarrow> ('e + pyval) \<times> ('r, 'w) world" where
  "await_rpc remote r m args w =
     (case remote r m args (engine w) of
        (res, ew) \<Rightarrow> (res, \<lparr>invocations = invocations w @ [(r, m, args)], engine = ew\<rparr>))"

section \<open>Handles\<close>

text \<open>
  Modelled from the spec: the class \<^verbatim>\<open>Message\<close> of \<^verbatim>\<open>message.py\<close> is not part of
  the sources at hand. The spec describes a handle as a lightweight domain object
  carrying only identifying integers plus a reference to the connection, so the
  constructor call \<^verbatim>\<open>Message(rpc, account_id, msg_id)\<close> stores its three arguments.
\<close>

record 'r Message =
  rpc :: 'r
  account_id :: pyval
  msg_id :: pyval

definition Message_init :: "'r \<Rightarrow> pyval \<Rightarrow> pyval \<Rightarrow> 'r Message" where
  "Message_init r a m = \<lparr>rpc = r, account_id = a, msg_id = m\<rparr>"

record 'r Chat =
  rpc :: 'r
  account_id :: pyval
  chat_id :: pyval

text \<open>\<^verbatim>\<open>Chat.__init__\<close>: three assignments, no check.\<close>

definition Chat_init :: "'r \<Rightarrow> pyval \<Rightarrow> pyval \<Rightarrow> 'r Chat" where
  "Chat_init r a c = \<lparr>rpc = r, account_id = a, chat_id = c\<rparr>"

text \<open>
  Every method takes \<^verbatim>\<open>self\<close> and the state, and yields what the caller observes:
  the exception or the returned value, the handle as it is afterwards, and the new
  state. A Python method could assign to the fields of \<^verbatim>\<open>self\<close>; returning the
  handle makes visible that these methods do not.
\<close>

definition block ::
  "('r, 'w, 'e) remote \<Rightarrow> 'r Chat \<Rightarrow> ('r, 'w) world \<Rightarrow> ('e + pyval) \<times> 'r Chat \<times> ('r, 'w) world" where
  "block remote self w =
     (case await_rpc remote (rpc self) ''block_chat'' [account_id self, chat_id self] w of
        (Inl e, w') \<Rightarrow> (Inl e, self, w')
      | (Inr _, w') \<Rightarrow> (Inr PNone, self, w'))"

definition accept ::
  "('r, 'w, 'e) remote \<Rightarrow> 'r Chat \<Rightarrow> ('r, 'w) world \<Rightarrow> ('e + pyval) \<times> 'r Chat \<times> ('r, 'w) world" where
  "accept remote self w =
     (case await_rpc remote (rpc self) ''accept_chat'' [account_id self, chat_id self] w of
        (Inl e, w') \<Rightarrow> (Inl e, self, w')
      | (Inr _, w') \<Rightarrow> (Inr PNone, self, w'))"

definition delete ::
  "('r, 'w, 'e) remote \<Rightarrow> 'r Chat \<Rightarrow> ('r, 'w) world \<Rightarrow> ('e + pyval) \<times> 'r Chat \<times> ('r, 'w) world" where
  "delete remote self w =
     (case await_rpc remote (rpc self) ''delete_chat'' [account_id self, chat_id self] w of
        (Inl e, w') \<Rightarrow> (Inl e, self, w')
      | (Inr _, w') \<Rightarrow> (Inr PNone, self, w'))"

definition get_encryption_info ::
  "('r, 'w, 'e) remote \<Rightarrow> 'r Chat \<Rightarrow> ('r, 'w) world \<Rightarrow> ('e + pyval) \<times> 'r Chat \<times> ('r, 'w) world" where
  "get_encryption_info remote self w =
     (case await_rpc remote (rpc self) ''get_chat_encryption_info''
             [account_id self, chat_id self] w of
        (Inl e, w') \<Rightarrow> (Inl e, self, w')
      | (Inr v, w') \<Rightarrow> (Inr v, self, w'))"

text \<open>
  \<^verbatim>\<open>send_text\<close> imports the class \<^verbatim>\<open>Message\<close> from the sibling module first;
  the module belongs to the package, and the import is taken to succeed.
\<close>

definition send_text ::
  "('r, 'w, 'e) remote \<Rightarrow> 'r Chat \<Rightarrow> pyval \<Rightarrow> ('r, 'w) world
     \<Rightarrow> ('e + 'r Message) \<times> 'r Chat \<times> ('r, 'w) world" where
  "send_text remote self text w =
     (case await_rpc remote (rpc self) ''misc_send_text_message''
             [account_id self, chat_id self, text] w of
        (Inl e, w') \<Rightarrow> (Inl e, self, w')
      | (Inr msg_id', w') \<Rightarrow>
          (Inr (Message_init (rpc self) (account_id self) msg_id'), self, w'))"

definition leave ::
  "('r, 'w, 'e) remote \<Rightarrow> 'r Chat \<Rightarrow> ('r, 'w) world \<Rightarrow> ('e + pyval) \<times> 'r Chat \<times> ('r, 'w) world" where
  "leave remote self w =
     (case await_rpc remote (rpc self) ''leave_group'' [account_id self, chat_id self] w of
        (Inl e, w') \<Rightarrow> (Inl e, self, w')
      | (Inr _, w') \<Rightarrow> (Inr PNone, self, w'))"

definition get_fresh_message_count ::
  "('r, 'w, 'e) remote \<Rightarrow> 'r Chat \<Rightarrow> ('r, 'w) world \<Rightarrow> ('e + pyval) \<times> 'r Chat \<times> ('r, 'w) world" where
  "get_fresh_message_count remote self w =
     (case await_rpc remote (rpc self) ''get_fresh_msg_cnt'' [account_id self, chat_id self] w of
        (Inl e, w') \<Rightarrow> (Inl e, self, w')
      | (Inr v, w') \<Rightarrow> (Inr v, self, w'))"

section \<open>The correlation core\<close>

text \<open>
  The connection object behind the \<^verbatim>\<open>rpc\<close> field (\<^verbatim>\<open>rpc.py\<close>) is not part of the
  sources at hand. What follows is its correlation core as the specification describes
  it, as a state machine whose operations are atomic: the specification makes access to
  the pending-call map mutually exclusive per operation, so a concurrent execution is an
  interleaving of these operations, that is, a list of events in some order.
\<close>

text \<open>
  Modelled from the spec: the Request of the data model (\<^verbatim>\<open>rpc.py\<close> is missing),
  with its fields id, method and params.
\<close>

datatype request = Request (req_id: int) (req_method: string) (req_params: "pyval list")

text \<open>
  Modelled from the spec: the error object of the wire format (\<^verbatim>\<open>rpc.py\<close> is
  missing), code and message with optional data.
\<close>

datatype error_object = ErrorObject (err_code: int) (err_message: string) (err_data: "pyval option")

text \<open>
  Modelled from the spec: what the framer hands to the correlator (\<^verbatim>\<open>rpc.py\<close> is
  missing). A Response carries an id and either a result or an error, never both; a
  Notification carries a method and params and no id.
\<close>

datatype payload = Result pyval | Error error_object

datatype message = Response int payload | Notification string "pyval list"

text \<open>
  Modelled from the spec: the error taxonomy of the specification (\<^verbatim>\<open>rpc.py\<close> is
  missing).
\<close>

datatype failure =
    MalformedFrame
  | NotReady
  | RemoteError int string "pyval option"
  | TransportLost
  | StartupTimeout
  | ProcessExited int

text \<open>
  Modelled from the spec: the lifecycle of the connection (\<^verbatim>\<open>rpc.py\<close> is missing),
  Starting, Ready, Degraded with a reason, Closed.
\<close>

datatype connection_state = Starting | Ready | Degraded string | Closed

text \<open>
  Modelled from the spec: the state the Correlator owns (\<^verbatim>\<open>rpc.py\<close> is missing).
  \<open>next_id\<close> is the counter identifiers come from; \<open>pending\<close> holds the identifier of
  every PendingCall that is registered and not yet resolved. The other fields record
  what the Correlator has handed to its neighbours: the requests given to the framer,
  every resolution delivered to a caller's suspension point (an identifier with the
  failure raised or the result returned there), the messages forwarded to the event
  dispatcher and the messages dropped with a diagnostic.
\<close>

record correlator =
  conn :: connection_state
  next_id :: int
  pending :: "int list"
  written :: "request list"
  resolutions :: "(int \<times> (failure + pyval)) list"
  forwarded :: "message list"
  dropped :: "message list"

text \<open>
  Modelled from the spec: a connection that has just been created (\<^verbatim>\<open>rpc.py\<close> is
  missing). The specification does not fix the first identifier, so it is a parameter.
\<close>

definition fresh :: "int \<Rightarrow> correlator" where
  "fresh n = \<lparr>conn = Starting, next_id = n, pending = [], written = [], resolutions = [],
              forwarded = [], dropped = []\<rparr>"

text \<open>
  Modelled from the spec: \<^verbatim>\<open>submit(method, params)\<close> (\<^verbatim>\<open>rpc.py\<close> is missing). It
  fails at once with NotReady unless the connection is Ready; otherwise it allocates
  the next identifier, registers a PendingCall, hands the Request to the framer and
  returns the identifier the caller suspends on. The write is taken to succeed.
\<close>

definition submit :: "string \<Rightarrow> pyval list \<Rightarrow> correlator \<Rightarrow> failure + (int \<times> correlator)" where
  "submit m ps s =
     (case conn s of
        Ready \<Rightarrow>
          Inr (next_id s,
               s\<lparr>next_id := next_id s + 1,
                 pending := pending s @ [next_id s],
                 written := written s @ [Request (next_id s) m ps]\<rparr>)
      | _ \<Rightarrow> Inl NotReady)"

text \<open>
  Modelled from the spec: how a Response resolves a call (\<^verbatim>\<open>rpc.py\<close> is missing): a
  result is returned to the caller, an error payload is raised as a RemoteError built
  from its code, message and data.
\<close>

fun outcome_of :: "payload \<Rightarrow> failure + pyval" where
  "outcome_of (Result v) = Inr v"
| "outcome_of (Error e) = Inl (RemoteError (err_code e) (err_message e) (err_data e))"

text \<open>
  Modelled from the spec: \<^verbatim>\<open>onIncoming(message)\<close> (\<^verbatim>\<open>rpc.py\<close> is missing). A
  message with a known pending id resolves that PendingCall and removes it from the
  pending set; one with an unknown id is dropped with a diagnostic; one with no id is
  forwarded verbatim to the event dispatcher.
\<close>

fun onIncoming :: "message \<Rightarrow> correlator \<Rightarrow> correlator" where
  "onIncoming (Response i p) s =
     (if i \<in> set (pending s)
      then s\<lparr>pending := removeAll i (pending s),
             resolutions := resolutions s @ [(i, outcome_of p)]\<rparr>
      else s\<lparr>dropped := dropped s @ [Response i p]\<rparr>)"
| "onIncoming (Notification m ps) s = s\<lparr>forwarded := forwarded s @ [Notification m ps]\<rparr>"

text \<open>
  Modelled from the spec: \<^verbatim>\<open>drainOnClose()\<close> (\<^verbatim>\<open>rpc.py\<close> is missing). It
  force-resolves every remaining PendingCall with a TransportLost failure, then clears
  the pending set.
\<close>

definition drainOnClose :: "correlator \<Rightarrow> correlator" where
  "drainOnClose s =
     s\<lparr>resolutions := resolutions s @ map (\<lambda>i. (i, Inl TransportLost)) (pending s),
       pending := []\<rparr>"

text \<open>
  Modelled from the spec: everything that can happen to one connection
  (\<^verbatim>\<open>rpc.py\<close> is missing): the handshake that ends Starting, a degradation, the
  close, a caller submitting a call, the reader task delivering a message.
\<close>

datatype event =
    Handshake
  | Degrade string
  | Close
  | Submit string "pyval list"
  | Incoming message

text \<open>
  Modelled from the spec: one atomic step of the connection (\<^verbatim>\<open>rpc.py\<close> is missing).
  The lifecycle only moves forward, Starting to Ready to Degraded; Closed can be entered
  from every other state, is terminal, and entering it runs \<open>drainOnClose\<close>, once. A
  submit that fails leaves the state as it was.
\<close>

fun step :: "event \<Rightarrow> correlator \<Rightarrow> correlator" where
  "step Handshake s = (case conn s of Starting \<Rightarrow> s\<lparr>conn := Ready\<rparr> | _ \<Rightarrow> s)"
| "step (Degrade reason) s = (case conn s of Ready \<Rightarrow> s\<lparr>conn := Degraded reason\<rparr> | _ \<Rightarrow> s)"
| "step Close s = (case conn s of Closed \<Rightarrow> s | _ \<Rightarrow> drainOnClose (s\<lparr>conn := Closed\<rparr>))"
| "step (Submit m ps) s = (case submit m ps s of Inl _ \<Rightarrow> s | Inr (_, s') \<Rightarrow> s')"
| "step (Incoming msg) s = onIncoming msg s"

text \<open>
  Modelled from the spec: a run of the connection, the events taken in the order in
  which they happen (\<^verbatim>\<open>rpc.py\<close> is missing).
\<close>

fun run :: "event list \<Rightarrow> correlator \<Rightarrow> correlator" where
  "run [] s = s"
| "run (e # es) s = run es (step e s)"

text \<open>
  Modelled from the spec: the identifiers handed to the callers of submit during a run,
  in the order of the calls (\<^verbatim>\<open>rpc.py\<close> is missing).
\<close>

fun assigned :: "event list \<Rightarrow> correlator \<Rightarrow> int list" where
  "assigned [] s = []"
| "assigned (Submit m ps # es) s =
     (case submit m ps s of
        Inl _ \<Rightarrow> assigned es s
      | Inr (i, s') \<Rightarrow> i # assigned es s')"
| "assigned (e # es) s = assigned es (step e s)"

text \<open>
  Modelled from the spec: what the caller suspended on identifier \<open>i\<close> receives, if its
  PendingCall has been resolved (\<^verbatim>\<open>rpc.py\<close> is missing).
\<close>

definition result_of :: "correlator \<Rightarrow> int \<Rightarrow> (failure + pyval) option" where
  "result_of s i = map_of (resolutions s) i"

text \<open>
  Modelled from the spec: the resolutions delivered for identifier \<open>i\<close>, all of them
  (\<^verbatim>\<open>rpc.py\<close> is missing).
\<close>

definition resolutions_for :: "correlator \<Rightarrow> int \<Rightarrow> (failure + pyval) list" where
  "resolutions_for s i = map snd (filter (\<lambda>r. fst r = i) (resolutions s))"

text \<open>
  Modelled from the spec: the invariants of the pending set (\<^verbatim>\<open>rpc.py\<close> is
  missing). There is at most one PendingCall per identifier, a call is resolved at most
  once and is then no longer pending, every identifier in use lies below the counter,
  the requests written are exactly the calls that are pending or resolved, and a closed
  connection has no pending call.
\<close>

definition consistent :: "correlator \<Rightarrow> bool" where
  "consistent s \<longleftrightarrow>
     distinct (pending s)
     \<and> distinct (map fst (resolutions s))
     \<and> set (pending s) \<inter> fst ` set (resolutions s) = {}
     \<and> (\<forall>i \<in> set (pending s) \<union> fst ` set (resolutions s). i < next_id s)
     \<and> req_id ` set (written s) = set (pending s) \<union> fst ` set (resolutions s)
     \<and> (conn s = Closed \<longrightarrow> pending s = [])"

section \<open>An engine for examples\<close>

text \<open>
  A remote side that replays a script: the world is the list of outcomes still to come,
  every invocation consumes the next one, whatever the method and the arguments, and an
  exhausted script answers with a lost transport. A caller that invoked the remote side
  twice would be seen to consume two outcomes.
\<close>

definition scripted :: "('r, (failure + pyval) list, failure) remote" where
  "scripted r m args replies =
     (case replies of
        [] \<Rightarrow> (Inl TransportLost, [])
      | x # rest \<Rightarrow> (x, rest))"

section \<open>The chat handle\<close>

lemmas chat_defs = block_def accept_def delete_def get_encryption_info_def send_text_def
  leave_def get_fresh_message_count_def await_rpc_def

text \<open>
  C2: every public operation of a chat handle is one forward. Whatever the remote side
  does, the whole outcome of an operation is that of a single remote call: the call is
  made on the handle's rpc object, under the one method name of the operation, with the
  stored account_id and chat_id as the first positional arguments, followed by the text
  for send_text. The value or exception observed is the one that this call produced
  (with None in place of the value for block, accept, delete and leave, and a message
  handle around it for send_text), the list of invocations grows by exactly this one
  entry, and the world afterwards is the world this one call left, so the remote side
  has been reached once, with these arguments, and not again. In the witness the script
  holds two outcomes; every operation consumes the first and leaves the second.
\<close>

theorem chat_operations_forward_once:
  "block remote c w =
       (map_sum id (\<lambda>_. PNone)
          (fst (remote (rpc c) ''block_chat'' [account_id c, chat_id c] (engine w))),
        c,
        \<lparr>invocations = invocations w @ [(rpc c, ''block_chat'', [account_id c, chat_id c])],
          engine = snd (remote (rpc c) ''block_chat'' [account_id c, chat_id c] (engine w))\<rparr>)
   \<and> accept remote c w =
       (map_sum id (\<lambda>_. PNone)
          (fst (remote (rpc c) ''accept_chat'' [account_id c, chat_id c] (engine w))),
        c,
        \<lparr>invocations = invocations w @ [(rpc c, ''accept_chat'', [account_id c, chat_id c])],
          engine = snd (remote (rpc c) ''accept_chat'' [account_id c, chat_id c] (engine w))\<rparr>)
   \<and> delete remote c w =
       (map_sum id (\<lambda>_. PNone)
          (fst (remote (rpc c) ''delete_chat'' [account_id c, chat_id c] (engine w))),
        c,
        \<lparr>invocations = invocations w @ [(rpc c, ''delete_chat'', [account_id c, chat_id c])],
          engine = snd (remote (rpc c) ''delete_chat'' [account_id c, chat_id c] (engine w))\<rparr>)
   \<and> get_encryption_info remote c w =
       (fst (remote (rpc c) ''get_chat_encryption_info'' [account_id c, chat_id c] (engine w)),
        c,
        \<lparr>invocations = invocations w @ [(rpc c, ''get_chat_encryption_info'', [account_id c, chat_id c])],
          engine = snd (remote (rpc c) ''get_chat_encryption_info'' [account_id c, chat_id c] (engine w))\<rparr>)
   \<and> send_text remote c text w =
       (map_sum id (Message_init (rpc c) (account_id c))
          (fst (remote (rpc c) ''misc_send_text_message'' [account_id c, chat_id c, text] (engine w))),
        c,
        \<lparr>invocations = invocations w @ [(rpc c, ''misc_send_text_message'', [account_id c, chat_id c, text])],
          engine = snd (remote (rpc c) ''misc_send_text_message'' [account_id c, chat_id c, text] (engine w))\<rparr>)
   \<and> leave remote c w =
       (map_sum id (\<lambda>_. PNone)
          (fst (remote (rpc c) ''leave_group'' [account_id c, chat_id c] (engine w))),
        c,
        \<lparr>invocations = invocations w @ [(rpc c, ''leave_group'', [account_id c, chat_id c])],
          engine = snd (remote (rpc c) ''leave_group'' [account_id c, chat_id c] (engine w))\<rparr>)
   \<and> get_fresh_message_count remote c w =
       (fst (remote (rpc c) ''get_fresh_msg_cnt'' [account_id c, chat_id c] (engine w)),
        c,
        \<lparr>invocations = invocations w @ [(rpc c, ''get_fresh_msg_cnt'', [account_id c, chat_id c])],
          engine = snd (remote (rpc c) ''get_fresh_msg_cnt'' [account_id c, chat_id c] (engine w))\<rparr>)"
  by (intro conjI; simp add: chat_defs split: prod.split sum.split)

theorem chat_operations_forward_once_witness:
  "block scripted (Chat_init (0::nat) (PInt 7) (PInt 42))
       \<lparr>invocations = [], engine = [Inr (PStr ''first''), Inr (PStr ''second'')]\<rparr>
     = (Inr PNone,
        (Chat_init (0::nat) (PInt 7) (PInt 42)),
        \<lparr>invocations = [(0, ''block_chat'', [PInt 7, PInt 42])],
          engine = [Inr (PStr ''second'')]\<rparr>)
   \<and> accept scripted (Chat_init (0::nat) (PInt 7) (PInt 42))
       \<lparr>invocations = [], engine = [Inr (PStr ''first''), Inr (PStr ''second'')]\<rparr>
     = (Inr PNone,
        (Chat_init (0::nat) (PInt 7) (PInt 42)),
        \<lparr>invocations = [(0, ''accept_chat'', [PInt 7, PInt 42])],
          engine = [Inr (PStr ''second'')]\<rparr>)
   \<and> delete scripted (Chat_init (0::nat) (PInt 7) (PInt 42))
       \<lparr>invocations = [], engine = [Inr (PStr ''first''), Inr (PStr ''second'')]\<rparr>
     = (Inr PNone,
        (Chat_init (0::nat) (PInt 7) (PInt 42)),
        \<lparr>invocations = [(0, ''delete_chat'', [PInt 7, PInt 42])],
          engine = [Inr (PStr ''second'')]\<rparr>)
   \<and> get_encryption_info scripted (Chat_init (0::nat) (PInt 7) (PInt 42))
       \<lparr>invocations = [], engine = [Inr (PStr ''first''), Inr (PStr ''second'')]\<rparr>
     = (Inr (PStr ''first''),
        (Chat_init (0::nat) (PInt 7) (PInt 42)),
        \<lparr>invocations = [(0, ''get_chat_encryption_info'', [PInt 7, PInt 42])],
          engine = [Inr (PStr ''second'')]\<rparr>)
   \<and> send_text scripted (Chat_init (0::nat) (PInt 7) (PInt 42)) (PStr ''hello'')
       \<lparr>invocations = [], engine = [Inr (PStr ''first''), Inr (PStr ''second'')]\<rparr>
     = (Inr \<lparr>Message.rpc = 0, Message.account_id = PInt 7, msg_id = PStr ''first''\<rparr>,
        (Chat_init (0::nat) (PInt 7) (PInt 42)),
        \<lparr>invocations = [(0, ''misc_send_text_message'', [PInt 7, PInt 42, PStr ''hello''])],
          engine = [Inr (PStr ''second'')]\<rparr>)
   \<and> leave scripted (Chat_init (0::nat) (PInt 7) (PInt 42))
       \<lparr>invocations = [], engine = [Inr (PStr ''first''), Inr (PStr ''second'')]\<rparr>
     = (Inr PNone,
        (Chat_init (0::nat) (PInt 7) (PInt 42)),
        \<lparr>invocations = [(0, ''leave_group'', [PInt 7, PInt 42])],
          engine = [Inr (PStr ''second'')]\<rparr>)
   \<and> get_fresh_message_count scripted (Chat_init (0::nat) (PInt 7) (PInt 42))
       \<lparr>invocations = [], engine = [Inr (PStr ''first''), Inr (PStr ''second'')]\<rparr>
     = (Inr (PStr ''first''),
        (Chat_init (0::nat) (PInt 7) (PInt 42)),
        \<lparr>invocations = [(0, ''get_fresh_msg_cnt'', [PInt 7, PInt 42])],
          engine = [Inr (PStr ''second'')]\<rparr>)"
  using chat_operations_forward_once
    [of scripted "Chat_init (0::nat) (PInt 7) (PInt 42)"
        "\<lparr>invocations = [], engine = [Inr (PStr ''first''), Inr (PStr ''second'')]\<rparr>" "PStr ''hello''"]
  by (simp add: scripted_def Chat_init_def Message_init_def)

text \<open>
  C3: get_fresh_message_count returns the value that the remote call get_fresh_msg_cnt
  on the stored account_id and chat_id returns, unchanged. The witness is the scenario
  of the specification: account 7, chat 42, the engine answers 3, the call returns 3.
\<close>

theorem get_fresh_message_count_returns_remote_result:
  assumes "remote (rpc c) ''get_fresh_msg_cnt'' [account_id c, chat_id c] (engine w) = (Inr v, ew)"
  shows "fst (get_fresh_message_count remote c w) = Inr v"
  using assms by (simp add: get_fresh_message_count_def await_rpc_def)

theorem get_fresh_message_count_returns_remote_result_witness:
  "scripted (rpc (Chat_init (0::nat) (PInt 7) (PInt 42))) ''get_fresh_msg_cnt'' [account_id (Chat_init (0::nat) (PInt 7) (PInt 42)), chat_id (Chat_init (0::nat) (PInt 7) (PInt 42))]
       (engine \<lparr>invocations = [], engine = [Inr (PInt 3)]\<rparr>)
     = (Inr (PInt 3), [])
   \<and> fst (get_fresh_message_count scripted (Chat_init (0::nat) (PInt 7) (PInt 42))
            \<lparr>invocations = [], engine = [Inr (PInt 3)]\<rparr>)
     = Inr (PInt 3)"
  using get_fresh_message_count_returns_remote_result
    [of scripted "Chat_init (0::nat) (PInt 7) (PInt 42)" "\<lparr>invocations = [], engine = [Inr (PInt 3)]\<rparr>" "PInt 3" "[]"]
  by (simp add: scripted_def Chat_init_def)

text \<open>
  C4: when the remote call misc_send_text_message returns a value, send_text returns a
  message handle with exactly three fields: the rpc object of the chat handle, the
  account_id of the chat handle, and the returned value as msg_id.
\<close>

theorem send_text_returns_message_handle:
  assumes "remote (rpc c) ''misc_send_text_message'' [account_id c, chat_id c, text] (engine w)
             = (Inr v, ew)"
  shows "fst (send_text remote c text w)
           = Inr \<lparr>Message.rpc = rpc c, Message.account_id = account_id c, msg_id = v\<rparr>"
  using assms by (simp add: send_text_def await_rpc_def Message_init_def)

theorem send_text_returns_message_handle_witness:
  "scripted (rpc (Chat_init (0::nat) (PInt 7) (PInt 42))) ''misc_send_text_message'' [account_id (Chat_init (0::nat) (PInt 7) (PInt 42)), chat_id (Chat_init (0::nat) (PInt 7) (PInt 42)), PStr ''hello'']
       (engine \<lparr>invocations = [], engine = [Inr (PInt 1001)]\<rparr>)
     = (Inr (PInt 1001), [])
   \<and> fst (send_text scripted (Chat_init (0::nat) (PInt 7) (PInt 42)) (PStr ''hello'')
            \<lparr>invocations = [], engine = [Inr (PInt 1001)]\<rparr>)
     = Inr \<lparr>Message.rpc = 0, Message.account_id = PInt 7, msg_id = PInt 1001\<rparr>"
  using send_text_returns_message_handle
    [of scripted "Chat_init (0::nat) (PInt 7) (PInt 42)" "PStr ''hello''"
        "\<lparr>invocations = [], engine = [Inr (PInt 1001)]\<rparr>" "PInt 1001" "[]"]
  by (simp add: scripted_def Chat_init_def)

text \<open>
  C5: no operation changes the handle. Whether the remote call raises or returns, the
  handle after the operation is the handle before it, with the same rpc, account_id and
  chat_id.
\<close>

theorem chat_handle_unchanged:
  "fst (snd (block remote c w)) = c
   \<and> fst (snd (accept remote c w)) = c
   \<and> fst (snd (delete remote c w)) = c
   \<and> fst (snd (get_encryption_info remote c w)) = c
   \<and> fst (snd (send_text remote c text w)) = c
   \<and> fst (snd (leave remote c w)) = c
   \<and> fst (snd (get_fresh_message_count remote c w)) = c"
  by (intro conjI; simp add: chat_defs split: prod.split sum.split)

text \<open>
  C6: an exception raised by the remote call leaves the operation as it is, and the
  operation stops there. If the one remote call of an operation raises \<open>e\<close>, the
  operation raises the same \<open>e\<close>, the handle is unchanged, exactly one invocation has
  been made, and the world is the one the failed call left: nothing is caught and
  nothing is tried again. In the witness the script holds an error followed by a
  result; the result is still unconsumed afterwards.
\<close>

theorem chat_errors_propagate_without_retry:
  "(remote (rpc c) ''block_chat'' [account_id c, chat_id c] (engine w) = (Inl e, ew) \<longrightarrow>
        block remote c w =
          (Inl e, c,
           \<lparr>invocations = invocations w @ [(rpc c, ''block_chat'', [account_id c, chat_id c])],
             engine = ew\<rparr>))
   \<and> (remote (rpc c) ''accept_chat'' [account_id c, chat_id c] (engine w) = (Inl e, ew) \<longrightarrow>
        accept remote c w =
          (Inl e, c,
           \<lparr>invocations = invocations w @ [(rpc c, ''accept_chat'', [account_id c, chat_id c])],
             engine = ew\<rparr>))
   \<and> (remote (rpc c) ''delete_chat'' [account_id c, chat_id c] (engine w) = (Inl e, ew) \<longrightarrow>
        delete remote c w =
          (Inl e, c,
           \<lparr>invocations = invocations w @ [(rpc c, ''delete_chat'', [account_id c, chat_id c])],
             engine = ew\<rparr>))
   \<and> (remote (rpc c) ''get_chat_encryption_info'' [account_id c, chat_id c] (engine w) = (Inl e, ew) \<longrightarrow>
        get_encryption_info remote c w =
          (Inl e, c,
           \<lparr>invocations = invocations w @ [(rpc c, ''get_chat_encryption_info'', [account_id c, chat_id c])],
             engine = ew\<rparr>))
   \<and> (remote (rpc c) ''misc_send_text_message'' [account_id c, chat_id c, text] (engine w) = (Inl e, ew) \<longrightarrow>
        send_text remote c text w =
          (Inl e, c,
           \<lparr>invocations = invocations w @ [(rpc c, ''misc_send_text_message'', [account_id c, chat_id c, text])],
             engine = ew\<rparr>))
   \<and> (remote (rpc c) ''leave_group'' [account_id c, chat_id c] (engine w) = (Inl e, ew) \<longrightarrow>
        leave remote c w =
          (Inl e, c,
           \<lparr>invocations = invocations w @ [(rpc c, ''leave_group'', [account_id c, chat_id c])],
             engine = ew\<rparr>))
   \<and> (remote (rpc c) ''get_fresh_msg_cnt'' [account_id c, chat_id c] (engine w) = (Inl e, ew) \<longrightarrow>
        get_fresh_message_count remote c w =
          (Inl e, c,
           \<lparr>invocations = invocations w @ [(rpc c, ''get_fresh_msg_cnt'', [account_id c, chat_id c])],
             engine = ew\<rparr>))"
  by (intro conjI; simp add: chat_defs)

theorem chat_errors_propagate_without_retry_witness:
  "scripted (rpc (Chat_init (0::nat) (PInt 7) (PInt 42))) ''block_chat''
       [account_id (Chat_init (0::nat) (PInt 7) (PInt 42)), chat_id (Chat_init (0::nat) (PInt 7) (PInt 42))]
       (engine \<lparr>invocations = [], engine = [Inl (RemoteError (- 1) ''chat not found'' None), Inr (PInt 3)]\<rparr>)
     = (Inl (RemoteError (- 1) ''chat not found'' None), [Inr (PInt 3)])
   \<and> block scripted (Chat_init (0::nat) (PInt 7) (PInt 42))
       \<lparr>invocations = [], engine = [Inl (RemoteError (- 1) ''chat not found'' None), Inr (PInt 3)]\<rparr>
     = (Inl (RemoteError (- 1) ''chat not found'' None), (Chat_init (0::nat) (PInt 7) (PInt 42)),
        \<lparr>invocations = [(0, ''block_chat'', [PInt 7, PInt 42])], engine = [Inr (PInt 3)]\<rparr>)
   \<and> scripted (rpc (Chat_init (0::nat) (PInt 7) (PInt 42))) ''accept_chat''
       [account_id (Chat_init (0::nat) (PInt 7) (PInt 42)), chat_id (Chat_init (0::nat) (PInt 7) (PInt 42))]
       (engine \<lparr>invocations = [], engine = [Inl (RemoteError (- 1) ''chat not found'' None), Inr (PInt 3)]\<rparr>)
     = (Inl (RemoteError (- 1) ''chat not found'' None), [Inr (PInt 3)])
   \<and> accept scripted (Chat_init (0::nat) (PInt 7) (PInt 42))
       \<lparr>invocations = [], engine = [Inl (RemoteError (- 1) ''chat not found'' None), Inr (PInt 3)]\<rparr>
     = (Inl (RemoteError (- 1) ''chat not found'' None), (Chat_init (0::nat) (PInt 7) (PInt 42)),
        \<lparr>invocations = [(0, ''accept_chat'', [PInt 7, PInt 42])], engine = [Inr (PInt 3)]\<rparr>)
   \<and> scripted (rpc (Chat_init (0::nat) (PInt 7) (PInt 42))) ''delete_chat''
       [account_id (Chat_init (0::nat) (PInt 7) (PInt 42)), chat_id (Chat_init (0::nat) (PInt 7) (PInt 42))]
       (engine \<lparr>invocations = [], engine = [Inl (RemoteError (- 1) ''chat not found'' None), Inr (PInt 3)]\<rparr>)
     = (Inl (RemoteError (- 1) ''chat not found'' None), [Inr (PInt 3)])
   \<and> delete scripted (Chat_init (0::nat) (PInt 7) (PInt 42))
       \<lparr>invocations = [], engine = [Inl (RemoteError (- 1) ''chat not found'' None), Inr (PInt 3)]\<rparr>
     = (Inl (RemoteError (- 1) ''chat not found'' None), (Chat_init (0::nat) (PInt 7) (PInt 42)),
        \<lparr>invocations = [(0, ''delete_chat'', [PInt 7, PInt 42])], engine = [Inr (PInt 3)]\<rparr>)
   \<and> scripted (rpc (Chat_init (0::nat) (PInt 7) (PInt 42))) ''get_chat_encryption_info''
       [account_id (Chat_init (0::nat) (PInt 7) (PInt 42)), chat_id (Chat_init (0::nat) (PInt 7) (PInt 42))]
       (engine \<lparr>invocations = [], engine = [Inl (RemoteError (- 1) ''chat not found'' None), Inr (PInt 3)]\<rparr>)
     = (Inl (RemoteError (- 1) ''chat not found'' None), [Inr (PInt 3)])
   \<and> get_encryption_info scripted (Chat_init (0::nat) (PInt 7) (PInt 42))
       \<lparr>invocations = [], engine = [Inl (RemoteError (- 1) ''chat not found'' None), Inr (PInt 3)]\<rparr>
     = (Inl (RemoteError (- 1) ''chat not found'' None), (Chat_init (0::nat) (PInt 7) (PInt 42)),
        \<lparr>invocations = [(0, ''get_chat_encryption_info'', [PInt 7, PInt 42])], engine = [Inr (PInt 3)]\<rparr>)
   \<and> scripted (rpc (Chat_init (0::nat) (PInt 7) (PInt 42))) ''misc_send_text_message''
       [account_id (Chat_init (0::nat) (PInt 7) (PInt 42)), chat_id (Chat_init (0::nat) (PInt 7) (PInt 42)), PStr ''hello'']
       (engine \<lparr>invocations = [], engine = [Inl (RemoteError (- 1) ''chat not found'' None), Inr (PInt 3)]\<rparr>)
     = (Inl (RemoteError (- 1) ''chat not found'' None), [Inr (PInt 3)])
   \<and> send_text scripted (Chat_init (0::nat) (PInt 7) (PInt 42)) (PStr ''hello'')
       \<lparr>invocations = [], engine = [Inl (RemoteError (- 1) ''chat not found'' None), Inr (PInt 3)]\<rparr>
     = (Inl (RemoteError (- 1) ''chat not found'' None), (Chat_init (0::nat) (PInt 7) (PInt 42)),
        \<lparr>invocations = [(0, ''misc_send_text_message'', [PInt 7, PInt 42, PStr ''hello''])], engine = [Inr (PInt 3)]\<rparr>)
   \<and> scripted (rpc (Chat_init (0::nat) (PInt 7) (PInt 42))) ''leave_group''
       [account_id (Chat_init (0::nat) (PInt 7) (PInt 42)), chat_id (Chat_init (0::nat) (PInt 7) (PInt 42))]
       (engine \<lparr>invocations = [], engine = [Inl (RemoteError (- 1) ''chat not found'' None), Inr (PInt 3)]\<rparr>)
     = (Inl (RemoteError (- 1) ''chat not found'' None), [Inr (PInt 3)])
   \<and> leave scripted (Chat_init (0::nat) (PInt 7) (PInt 42))
       \<lparr>invocations = [], engine = [Inl (RemoteError (- 1) ''chat not found'' None), Inr (PInt 3)]\<rparr>
     = (Inl (RemoteError (- 1) ''chat not found'' None), (Chat_init (0::nat) (PInt 7) (PInt 42)),
        \<lparr>invocations = [(0, ''leave_group'', [PInt 7, PInt 42])], engine = [Inr (PInt 3)]\<rparr>)
   \<and> scripted (rpc (Chat_init (0::nat) (PInt 7) (PInt 42))) ''get_fresh_msg_cnt''
       [account_id (Chat_init (0::nat) (PInt 7) (PInt 42)), chat_id (Chat_init (0::nat) (PInt 7) (PInt 42))]
       (engine \<lparr>invocations = [], engine = [Inl (RemoteError (- 1) ''chat not found'' None), Inr (PInt 3)]\<rparr>)
     = (Inl (RemoteError (- 1) ''chat not found'' None), [Inr (PInt 3)])
   \<and> get_fresh_message_count scripted (Chat_init (0::nat) (PInt 7) (PInt 42))
       \<lparr>invocations = [], engine = [Inl (RemoteError (- 1) ''chat not found'' None), Inr (PInt 3)]\<rparr>
     = (Inl (RemoteError (- 1) ''chat not found'' None), (Chat_init (0::nat) (PInt 7) (PInt 42)),
        \<lparr>invocations = [(0, ''get_fresh_msg_cnt'', [PInt 7, PInt 42])], engine = [Inr (PInt 3)]\<rparr>)"
  using chat_errors_propagate_without_retry
    [of scripted "Chat_init (0::nat) (PInt 7) (PInt 42)"
        "\<lparr>invocations = [], engine = [Inl (RemoteError (- 1) ''chat not found'' None), Inr (PInt 3)]\<rparr>"
        "RemoteError (- 1) ''chat not found'' None" "[Inr (PInt 3)]" "PStr ''hello''"]
  by (simp add: scripted_def Chat_init_def)

text \<open>
  C9: block, accept, delete and leave return None when the remote call returns,
  whatever value the remote call returned.
\<close>

theorem chat_commands_return_none:
  "(remote (rpc c) ''block_chat'' [account_id c, chat_id c] (engine w) = (Inr v, ew) \<longrightarrow>
        fst (block remote c w) = Inr PNone)
   \<and> (remote (rpc c) ''accept_chat'' [account_id c, chat_id c] (engine w) = (Inr v, ew) \<longrightarrow>
        fst (accept remote c w) = Inr PNone)
   \<and> (remote (rpc c) ''delete_chat'' [account_id c, chat_id c] (engine w) = (Inr v, ew) \<longrightarrow>
        fst (delete remote c w) = Inr PNone)
   \<and> (remote (rpc c) ''leave_group'' [account_id c, chat_id c] (engine w) = (Inr v, ew) \<longrightarrow>
        fst (leave remote c w) = Inr PNone)"
  by (intro conjI; simp add: chat_defs)

theorem chat_commands_return_none_witness:
  "scripted (rpc (Chat_init (0::nat) (PInt 7) (PInt 42))) ''block_chat''
       [account_id (Chat_init (0::nat) (PInt 7) (PInt 42)), chat_id (Chat_init (0::nat) (PInt 7) (PInt 42))]
       (engine \<lparr>invocations = [], engine = [Inr (PStr ''discarded'')]\<rparr>)
     = (Inr (PStr ''discarded''), [])
   \<and> fst (block scripted (Chat_init (0::nat) (PInt 7) (PInt 42)) \<lparr>invocations = [], engine = [Inr (PStr ''discarded'')]\<rparr>) = Inr PNone
   \<and> scripted (rpc (Chat_init (0::nat) (PInt 7) (PInt 42))) ''accept_chat''
       [account_id (Chat_init (0::nat) (PInt 7) (PInt 42)), chat_id (Chat_init (0::nat) (PInt 7) (PInt 42))]
       (engine \<lparr>invocations = [], engine = [Inr (PStr ''discarded'')]\<rparr>)
     = (Inr (PStr ''discarded''), [])
   \<and> fst (accept scripted (Chat_init (0::nat) (PInt 7) (PInt 42)) \<lparr>invocations = [], engine = [Inr (PStr ''discarded'')]\<rparr>) = Inr PNone
   \<and> scripted (rpc (Chat_init (0::nat) (PInt 7) (PInt 42))) ''delete_chat''
       [account_id (Chat_init (0::nat) (PInt 7) (PInt 42)), chat_id (Chat_init (0::nat) (PInt 7) (PInt 42))]
       (engine \<lparr>invocations = [], engine = [Inr (PStr ''discarded'')]\<rparr>)
     = (Inr (PStr ''discarded''), [])
   \<and> fst (delete scripted (Chat_init (0::nat) (PInt 7) (PInt 42)) \<lparr>invocations = [], engine = [Inr (PStr ''discarded'')]\<rparr>) = Inr PNone
   \<and> scripted (rpc (Chat_init (0::nat) (PInt 7) (PInt 42))) ''leave_group''
       [account_id (Chat_init (0::nat) (PInt 7) (PInt 42)), chat_id (Chat_init (0::nat) (PInt 7) (PInt 42))]
       (engine \<lparr>invocations = [], engine = [Inr (PStr ''discarded'')]\<rparr>)
     = (Inr (PStr ''discarded''), [])
   \<and> fst (leave scripted (Chat_init (0::nat) (PInt 7) (PInt 42)) \<lparr>invocations = [], engine = [Inr (PStr ''discarded'')]\<rparr>) = Inr PNone"
  using chat_commands_return_none
    [of scripted "Chat_init (0::nat) (PInt 7) (PInt 42)" "\<lparr>invocations = [], engine = [Inr (PStr ''discarded'')]\<rparr>" "PStr ''discarded''" "[]"]
  by (simp add: scripted_def Chat_init_def)



section \<open>The correlator\<close>

lemma run_append: "run (es @ es') s = run es' (run es s)"
  by (induction es arbitrary: s) simp_all

lemma submit_Inr_iff:
  "submit m ps s = Inr (i, s') \<longleftrightarrow>
     conn s = Ready \<and> i = next_id s
     \<and> s' = s\<lparr>next_id := next_id s + 1, pending := pending s @ [next_id s],
               written := written s @ [Request (next_id s) m ps]\<rparr>"
  by (auto simp: submit_def split: connection_state.splits)

lemma submit_Inl_iff: "submit m ps s = Inl f \<longleftrightarrow> conn s \<noteq> Ready \<and> f = NotReady"
  by (auto simp: submit_def split: connection_state.splits)

lemma next_id_onIncoming: "next_id (onIncoming msg s) = next_id s"
  by (cases msg) simp_all

lemma next_id_step: "next_id s \<le> next_id (step e s)"
  by (cases e)
     (auto simp: submit_def drainOnClose_def next_id_onIncoming split: connection_state.splits)

lemma assigned_lower: "i \<in> set (assigned es s) \<Longrightarrow> next_id s \<le> i"
proof (induction es arbitrary: s)
  case Nil
  then show ?case by simp
next
  case (Cons e es)
  show ?case
  proof (cases e)
    case (Submit m ps)
    show ?thesis
    proof (cases "submit m ps s")
      case (Inl f)
      with Cons Submit show ?thesis by simp
    next
      case (Inr r)
      obtain j s' where r: "r = (j, s')" by (cases r)
      with Inr have j: "j = next_id s" and s': "next_id s' = next_id s + 1"
        by (auto simp: submit_Inr_iff)
      from Cons.prems Submit Inr r have "i = j \<or> i \<in> set (assigned es s')" by simp
      then show ?thesis
      proof
        assume "i = j" with j show ?thesis by simp
      next
        assume "i \<in> set (assigned es s')"
        then have "next_id s' \<le> i" by (rule Cons.IH)
        with s' show ?thesis by simp
      qed
    qed
  next
    case Handshake
    with Cons.prems have "i \<in> set (assigned es (step e s))" by simp
    then have "next_id (step e s) \<le> i" by (rule Cons.IH)
    with next_id_step [of s e] show ?thesis by simp
  next
    case (Degrade x)
    with Cons.prems have "i \<in> set (assigned es (step e s))" by simp
    then have "next_id (step e s) \<le> i" by (rule Cons.IH)
    with next_id_step [of s e] show ?thesis by simp
  next
    case Close
    with Cons.prems have "i \<in> set (assigned es (step e s))" by simp
    then have "next_id (step e s) \<le> i" by (rule Cons.IH)
    with next_id_step [of s e] show ?thesis by simp
  next
    case (Incoming x)
    with Cons.prems have "i \<in> set (assigned es (step e s))" by simp
    then have "next_id (step e s) \<le> i" by (rule Cons.IH)
    with next_id_step [of s e] show ?thesis by simp
  qed
qed

lemma assigned_sorted: "sorted_wrt (<) (assigned es s)"
proof (induction es arbitrary: s)
  case Nil
  show ?case by simp
next
  case (Cons e es)
  show ?case
  proof (cases e)
    case (Submit m ps)
    show ?thesis
    proof (cases "submit m ps s")
      case (Inl f)
      with Cons Submit show ?thesis by simp
    next
      case (Inr r)
      obtain j s' where r: "r = (j, s')" by (cases r)
      with Inr have j: "j = next_id s" and s': "next_id s' = next_id s + 1"
        by (auto simp: submit_Inr_iff)
      have "\<forall>k \<in> set (assigned es s'). j < k"
        using assigned_lower [of _ es s'] j s' by fastforce
      with Cons.IH [of s'] Submit Inr r show ?thesis by simp
    qed
  qed (use Cons.IH in simp_all)
qed

lemma assigned_replicate:
  "conn s = Ready \<Longrightarrow>
     assigned (replicate k (Submit m ps)) s = map (\<lambda>j. next_id s + int j) [0..<k]"
proof (induction k arbitrary: s)
  case 0
  show ?case by simp
next
  case (Suc k)
  let ?s' = "s\<lparr>next_id := next_id s + 1, pending := pending s @ [next_id s],
               written := written s @ [Request (next_id s) m ps]\<rparr>"
  have sub: "submit m ps s = Inr (next_id s, ?s')"
    using Suc.prems by (simp add: submit_Inr_iff)
  have "assigned (replicate k (Submit m ps)) ?s' = map (\<lambda>j. next_id ?s' + int j) [0..<k]"
    using Suc.prems by (intro Suc.IH) simp
  then have "assigned (replicate (Suc k) (Submit m ps)) s
               = next_id s # map (\<lambda>j. next_id s + 1 + int j) [0..<k]"
    using sub by simp
  also have "\<dots> = map (\<lambda>j. next_id s + int j) [0..<Suc k]"
    by (simp add: upt_conv_Cons map_Suc_upt [symmetric] del: upt_Suc) 
  finally show ?case .
qed


lemma consistent_fresh: "consistent (fresh n)"
  by (simp add: consistent_def fresh_def)

lemma consistent_submit:
  assumes "consistent s" and "submit m ps s = Inr (i, s')"
  shows "consistent s'"
proof -
  from assms(2) have r: "conn s = Ready" and i: "i = next_id s"
    and s': "s' = s\<lparr>next_id := next_id s + 1, pending := pending s @ [next_id s],
                     written := written s @ [Request (next_id s) m ps]\<rparr>"
    by (simp_all add: submit_Inr_iff)
  from assms(1) have below: "\<forall>j \<in> set (pending s) \<union> fst ` set (resolutions s). j < next_id s"
    by (simp add: consistent_def)
  then have new: "next_id s \<notin> set (pending s)" "next_id s \<notin> fst ` set (resolutions s)"
    by auto
  have below': "\<forall>j \<in> set (pending s) \<union> fst ` set (resolutions s). j < next_id s + 1"
  proof
    fix j
    assume "j \<in> set (pending s) \<union> fst ` set (resolutions s)"
    with below have "j < next_id s" by blast
    then show "j < next_id s + 1" by simp
  qed
  from assms(1) new below' r show ?thesis
    unfolding s' consistent_def by auto
qed

lemma consistent_onIncoming:
  assumes "consistent s"
  shows "consistent (onIncoming msg s)"
proof (cases msg)
  case (Notification m ps)
  with assms show ?thesis by (simp add: consistent_def)
next
  case (Response i p)
  show ?thesis
  proof (cases "i \<in> set (pending s)")
    case False
    with assms Response show ?thesis by (simp add: consistent_def)
  next
    case True
    with assms have "i \<notin> fst ` set (resolutions s)"
      by (auto simp: consistent_def)
    with assms True Response show ?thesis
      unfolding consistent_def by (auto simp: distinct_removeAll)
  qed
qed

lemma consistent_drain:
  assumes "consistent s"
  shows "consistent (drainOnClose (s\<lparr>conn := Closed\<rparr>))"
proof -
  have img: "fst ` (\<lambda>i. (i, Inl TransportLost :: failure + pyval)) ` set (pending s) = set (pending s)"
    by force
  have mp: "map (fst \<circ> (\<lambda>i. (i, Inl TransportLost :: failure + pyval))) (pending s) = pending s"
    by (induction "pending s") (simp_all add: map_idI)
  from assms show ?thesis
    unfolding consistent_def drainOnClose_def
    by (auto simp: image_Un img mp)
qed

lemma consistent_step:
  assumes "consistent s"
  shows "consistent (step e s)"
proof (cases e)
  case Handshake
  with assms show ?thesis
    by (cases "conn s") (simp_all add: consistent_def)
next
  case (Degrade reason)
  with assms show ?thesis
    by (cases "conn s") (simp_all add: consistent_def)
next
  case Close
  with assms consistent_drain [OF assms] show ?thesis
    by (cases "conn s") simp_all
next
  case (Submit m ps)
  show ?thesis
  proof (cases "submit m ps s")
    case (Inl f)
    with assms Submit show ?thesis by simp
  next
    case (Inr r)
    obtain i s' where "r = (i, s')" by (cases r)
    with assms Submit Inr consistent_submit [of s m ps i s'] show ?thesis by simp
  qed
next
  case (Incoming msg)
  with consistent_onIncoming [OF assms] show ?thesis by simp
qed

lemma consistent_run: "consistent s \<Longrightarrow> consistent (run es s)"
  by (induction es arbitrary: s) (simp_all add: consistent_step)


lemma resolutions_step_extends: "\<exists>zs. resolutions (step e s) = resolutions s @ zs"
proof (cases e)
  case (Incoming msg)
  then show ?thesis by (cases msg) simp_all
next
  case (Submit m ps)
  then show ?thesis by (auto simp: submit_def split: connection_state.splits)
qed (auto simp: drainOnClose_def split: connection_state.splits)

lemma result_of_step_stable:
  assumes "result_of s i = Some r"
  shows "result_of (step e s) i = Some r"
proof -
  obtain zs where "resolutions (step e s) = resolutions s @ zs"
    using resolutions_step_extends by blast
  with assms show ?thesis by (simp add: result_of_def map_add_Some_iff)
qed

lemma result_of_run_stable: "result_of s i = Some r \<Longrightarrow> result_of (run es s) i = Some r"
  by (induction es arbitrary: s) (simp_all add: result_of_step_stable)

lemma result_of_response:
  assumes "consistent s" and "i \<in> set (pending s)"
  shows "result_of (onIncoming (Response i p) s) i = Some (outcome_of p)"
proof -
  from assms have "i \<notin> fst ` set (resolutions s)"
    by (auto simp: consistent_def)
  then have "map_of (resolutions s) i = None"
    by (simp add: map_of_eq_None_iff)
  with assms(2) show ?thesis
    by (simp add: result_of_def map_add_def)
qed

lemma pending_step_subset:
  "set (pending (step e s)) \<subseteq> set (pending s) \<union> set (assigned [e] s)"
proof (cases e)
  case (Incoming msg)
  then show ?thesis by (cases msg) auto
next
  case (Submit m ps)
  then show ?thesis by (auto simp: submit_def split: connection_state.splits)
qed (auto simp: drainOnClose_def split: connection_state.splits)

lemma assigned_Cons: "assigned (e # es) s = assigned [e] s @ assigned es (step e s)"
  by (cases e) (auto split: sum.splits)

lemma pending_run_subset: "set (pending (run es s)) \<subseteq> set (pending s) \<union> set (assigned es s)"
proof (induction es arbitrary: s)
  case Nil
  show ?case by simp
next
  case (Cons e es)
  have "set (pending (run (e # es) s)) \<subseteq> set (pending (step e s)) \<union> set (assigned es (step e s))"
    using Cons.IH [of "step e s"] by simp
  also have "\<dots> \<subseteq> set (pending s) \<union> set (assigned [e] s) \<union> set (assigned es (step e s))"
    using pending_step_subset [of e s] by blast
  also have "\<dots> = set (pending s) \<union> set (assigned (e # es) s)"
    by (subst (2) assigned_Cons) auto
  finally show ?case .
qed

lemma resolutions_step_origin:
  assumes "(j, r) \<in> set (resolutions (step e s))"
  shows "(j, r) \<in> set (resolutions s)
         \<or> (\<exists>p. e = Incoming (Response j p) \<and> r = outcome_of p)
         \<or> r = Inl TransportLost"
proof (cases e)
  case (Incoming msg)
  with assms show ?thesis by (cases msg) (auto split: if_splits)
next
  case (Submit m ps)
  with assms show ?thesis by (auto simp: submit_def split: connection_state.splits)
qed (use assms in \<open>auto simp: drainOnClose_def split: connection_state.splits\<close>)

lemma resolutions_run_origin:
  "(j, r) \<in> set (resolutions (run es s)) \<Longrightarrow>
     (j, r) \<in> set (resolutions s)
     \<or> (\<exists>p. Incoming (Response j p) \<in> set es \<and> r = outcome_of p)
     \<or> r = Inl TransportLost"
proof (induction es arbitrary: s)
  case Nil
  then show ?case by simp
next
  case (Cons e es)
  from Cons.prems have "(j, r) \<in> set (resolutions (run es (step e s)))" by simp
  from Cons.IH [OF this] resolutions_step_origin [of j r e s] show ?case by auto
qed

lemma outcome_of_Inr: "outcome_of p = Inr v \<longleftrightarrow> p = Result v"
  by (cases p) auto

text \<open>
  C1: every call receives the response that carries its own identifier, in whatever
  order the responses arrive. Take any run of a connection, that is, any interleaving
  of submits, incoming messages and lifecycle events. If a response with identifier
  \<open>i\<close> arrives while the call \<open>i\<close> is outstanding, then \<open>i\<close> is an identifier
  that submit handed to a caller, and from then on the caller of \<open>i\<close> holds exactly
  the outcome that response carries, whatever arrived before it and whatever arrives
  after it. Conversely, any result a call returns was carried by a response with that
  call's identifier. The witness is the scenario of the specification: two calls with
  identifiers 3 and 4, the responses arrive as 4 then 3, each call gets its own result.
\<close>

theorem each_call_receives_its_own_response:
  assumes "es = es1 @ Incoming (Response i p) # es2"
      and "i \<in> set (pending (run es1 (fresh n)))"
  shows "i \<in> set (assigned es1 (fresh n))
         \<and> result_of (run es (fresh n)) i = Some (outcome_of p)
         \<and> (\<forall>j v. result_of (run es (fresh n)) j = Some (Inr v)
                \<longrightarrow> Incoming (Response j (Result v)) \<in> set es)"
proof (intro conjI allI impI)
  show "i \<in> set (assigned es1 (fresh n))"
    using assms(2) pending_run_subset [of es1 "fresh n"] by (auto simp: fresh_def)
next
  have "consistent (run es1 (fresh n))"
    by (simp add: consistent_run consistent_fresh)
  then have "result_of (onIncoming (Response i p) (run es1 (fresh n))) i = Some (outcome_of p)"
    using assms(2) by (rule result_of_response)
  then show "result_of (run es (fresh n)) i = Some (outcome_of p)"
    by (simp add: assms(1) run_append result_of_run_stable)
next
  fix j v
  assume "result_of (run es (fresh n)) j = Some (Inr v)"
  then have "(j, Inr v) \<in> set (resolutions (run es (fresh n)))"
    by (simp add: result_of_def map_of_SomeD)
  from resolutions_run_origin [OF this]
  show "Incoming (Response j (Result v)) \<in> set es"
    by (auto simp: fresh_def outcome_of_Inr dest: sym)
qed


theorem each_call_receives_its_own_response_witness:
  "assigned [Handshake, Submit ''get_fresh_msg_cnt'' [PInt 7, PInt 42],
             Submit ''get_chat_encryption_info'' [PInt 7, PInt 42]] (fresh 3) = [3, 4]
   \<and> 4 \<in> set (pending (run [Handshake, Submit ''get_fresh_msg_cnt'' [PInt 7, PInt 42],
                              Submit ''get_chat_encryption_info'' [PInt 7, PInt 42]] (fresh 3)))
   \<and> 3 \<in> set (pending (run [Handshake, Submit ''get_fresh_msg_cnt'' [PInt 7, PInt 42],
                              Submit ''get_chat_encryption_info'' [PInt 7, PInt 42],
                              Incoming (Response 4 (Result (PStr ''info'')))] (fresh 3)))
   \<and> result_of (run [Handshake, Submit ''get_fresh_msg_cnt'' [PInt 7, PInt 42],
                      Submit ''get_chat_encryption_info'' [PInt 7, PInt 42],
                      Incoming (Response 4 (Result (PStr ''info''))),
                      Incoming (Response 3 (Result (PInt 3)))] (fresh 3)) 4
       = Some (Inr (PStr ''info''))
   \<and> result_of (run [Handshake, Submit ''get_fresh_msg_cnt'' [PInt 7, PInt 42],
                      Submit ''get_chat_encryption_info'' [PInt 7, PInt 42],
                      Incoming (Response 4 (Result (PStr ''info''))),
                      Incoming (Response 3 (Result (PInt 3)))] (fresh 3)) 3
       = Some (Inr (PInt 3))"
  using
    each_call_receives_its_own_response
      [of "[Handshake, Submit ''get_fresh_msg_cnt'' [PInt 7, PInt 42],
            Submit ''get_chat_encryption_info'' [PInt 7, PInt 42],
            Incoming (Response 4 (Result (PStr ''info''))),
            Incoming (Response 3 (Result (PInt 3)))]"
          "[Handshake, Submit ''get_fresh_msg_cnt'' [PInt 7, PInt 42],
            Submit ''get_chat_encryption_info'' [PInt 7, PInt 42]]"
          4 "Result (PStr ''info'')" "[Incoming (Response 3 (Result (PInt 3)))]" 3]
    each_call_receives_its_own_response
      [of "[Handshake, Submit ''get_fresh_msg_cnt'' [PInt 7, PInt 42],
            Submit ''get_chat_encryption_info'' [PInt 7, PInt 42],
            Incoming (Response 4 (Result (PStr ''info''))),
            Incoming (Response 3 (Result (PInt 3)))]"
          "[Handshake, Submit ''get_fresh_msg_cnt'' [PInt 7, PInt 42],
            Submit ''get_chat_encryption_info'' [PInt 7, PInt 42],
            Incoming (Response 4 (Result (PStr ''info'')))]"
          3 "Result (PInt 3)" "[]" 3]
  by (simp add: fresh_def submit_def)

text \<open>
  C7: no identifier is assigned twice. In every run, from every state, the identifiers
  handed out by submit are pairwise distinct and strictly increasing in the order of the
  calls; and \<open>k\<close> submits on a ready connection receive the \<open>k\<close> consecutive
  identifiers from the first one on, however large \<open>k\<close> is. The witness has 5000
  calls.
\<close>

theorem identifiers_never_reused:
  "distinct (assigned es s)
   \<and> sorted_wrt (<) (assigned es s)
   \<and> assigned (Handshake # replicate k (Submit m ps)) (fresh n) = map (\<lambda>j. n + int j) [0..<k]"
proof (intro conjI)
  show sorted: "sorted_wrt (<) (assigned es s)"
    by (rule assigned_sorted)
  then show "distinct (assigned es s)"
    by (simp add: strict_sorted_iff)
  have "assigned (replicate k (Submit m ps)) ((fresh n)\<lparr>conn := Ready\<rparr>)
          = map (\<lambda>j. next_id ((fresh n)\<lparr>conn := Ready\<rparr>) + int j) [0..<k]"
    by (rule assigned_replicate) simp
  then show "assigned (Handshake # replicate k (Submit m ps)) (fresh n)
               = map (\<lambda>j. n + int j) [0..<k]"
    by (simp add: fresh_def)
qed

theorem identifiers_never_reused_witness:
  "distinct (assigned (Handshake # replicate 5000 (Submit ''get_fresh_msg_cnt'' [PInt 7, PInt 42]))
               (fresh 1))
   \<and> assigned (Handshake # replicate 5000 (Submit ''get_fresh_msg_cnt'' [PInt 7, PInt 42])) (fresh 1)
       = map (\<lambda>j. 1 + int j) [0..<5000]"
  using identifiers_never_reused
    [of "Handshake # replicate 5000 (Submit ''get_fresh_msg_cnt'' [PInt 7, PInt 42])" "fresh 1"
        5000 "''get_fresh_msg_cnt''" "[PInt 7, PInt 42]" 1]
  by blast

lemma closed_step:
  assumes "conn s = Closed" and "pending s = []"
  shows "conn (step e s) = Closed \<and> pending (step e s) = []
         \<and> resolutions (step e s) = resolutions s"
proof (cases e)
  case (Incoming msg)
  with assms show ?thesis by (cases msg) simp_all
next
  case (Submit m ps)
  with assms show ?thesis by (simp add: submit_def)
qed (use assms in simp_all)

lemma closed_run:
  "conn s = Closed \<Longrightarrow> pending s = [] \<Longrightarrow>
     conn (run es s) = Closed \<and> pending (run es s) = [] \<and> resolutions (run es s) = resolutions s"
proof (induction es arbitrary: s)
  case Nil
  then show ?case by simp
next
  case (Cons e es)
  from closed_step [OF Cons.prems, of e] Cons.IH [of "step e s"] show ?case by simp
qed

lemma filter_tagged:
  "distinct xs \<Longrightarrow> i \<in> set xs \<Longrightarrow> filter (\<lambda>r. fst r = i) (map (\<lambda>k. (k, c)) xs) = [(i, c)]"
proof (induction xs)
  case Nil
  then show ?case by simp
next
  case (Cons x xs)
  show ?case
  proof (cases "x = i")
    case True
    with Cons.prems have "i \<notin> set xs" by simp
    then have "filter (\<lambda>r. fst r = i) (map (\<lambda>k. (k, c)) xs) = []"
      by (induction xs) auto
    with True show ?thesis by simp
  next
    case False
    with Cons show ?thesis by simp
  qed
qed

lemma filter_absent: "i \<notin> fst ` set xs \<Longrightarrow> filter (\<lambda>r. fst r = i) xs = []"
  by (induction xs) auto

lemma close_resolves_pending:
  assumes "consistent s" and "i \<in> set (pending s)"
  shows "resolutions_for (step Close s) i = [Inl TransportLost]"
proof -
  from assms have notc: "conn s \<noteq> Closed" and d: "distinct (pending s)"
    and "i \<notin> fst ` set (resolutions s)"
    by (auto simp: consistent_def)
  then have old: "filter (\<lambda>r. fst r = i) (resolutions s) = []"
    by (simp add: filter_absent)
  have new: "filter (\<lambda>r. fst r = i) (map (\<lambda>k. (k, Inl TransportLost)) (pending s))
               = [(i, Inl TransportLost)]"
    using d assms(2) by (rule filter_tagged)
  from notc have res: "resolutions (step Close s)
                    = resolutions s @ map (\<lambda>k. (k, Inl TransportLost)) (pending s)"
    by (cases "conn s") (simp_all add: drainOnClose_def)
  have "resolutions_for (step Close s) i
          = map snd (filter (\<lambda>r. fst r = i) (resolutions s)
                     @ filter (\<lambda>r. fst r = i) (map (\<lambda>k. (k, Inl TransportLost)) (pending s)))"
    by (simp only: resolutions_for_def res filter_append)
  also have "\<dots> = map snd ([] @ [(i, Inl TransportLost)])"
    by (simp only: old new)
  also have "\<dots> = [Inl TransportLost]"
    by simp
  finally show ?thesis .
qed

lemma close_closes:
  assumes "consistent s"
  shows "conn (step Close s) = Closed \<and> pending (step Close s) = []"
  using assms by (cases "conn s") (simp_all add: drainOnClose_def consistent_def)

lemma written_step:
  "map req_id (written (step e s)) = map req_id (written s) @ assigned [e] s"
proof (cases e)
  case (Incoming msg)
  then show ?thesis by (cases msg) simp_all
next
  case (Submit m ps)
  then show ?thesis by (auto simp: submit_def split: connection_state.splits)
qed (auto simp: drainOnClose_def split: connection_state.splits)

lemma written_run:
  "map req_id (written (run es s)) = map req_id (written s) @ assigned es s"
proof (induction es arbitrary: s)
  case Nil
  show ?case by simp
next
  case (Cons e es)
  have "map req_id (written (run (e # es) s))
          = map req_id (written (step e s)) @ assigned es (step e s)"
    using Cons.IH [of "step e s"] by simp
  also have "\<dots> = map req_id (written s) @ assigned [e] s @ assigned es (step e s)"
    by (simp add: written_step)
  also have "\<dots> = map req_id (written s) @ assigned (e # es) s"
    by (subst (2) assigned_Cons) simp
  finally show ?case .
qed

lemma one_resolution:
  "distinct (map fst xs) \<Longrightarrow> i \<in> fst ` set xs \<Longrightarrow> length (filter (\<lambda>r. fst r = i) xs) = 1"
proof (induction xs)
  case Nil
  then show ?case by simp
next
  case (Cons x xs)
  show ?case
  proof (cases "fst x = i")
    case True
    with Cons.prems have "i \<notin> fst ` set xs" by auto
    with True show ?thesis by (simp add: filter_absent)
  next
    case False
    with Cons show ?thesis by auto
  qed
qed

text \<open>
  C8: closing a connection resolves what is outstanding. After the close, and after
  anything that happens later, the connection is Closed and the pending set is empty;
  every call that was pending at the close has exactly one resolution, the failure
  TransportLost; and every call that was ever assigned an identifier has exactly one
  resolution, so that no caller stays suspended. In the witness the call with identifier
  5 is outstanding when the connection closes; a response for 5 that arrives later and
  a later submit change nothing.
\<close>

theorem close_resolves_every_pending_call_once:
  "conn (run (es @ Close # es') (fresh n)) = Closed
   \<and> pending (run (es @ Close # es') (fresh n)) = []
   \<and> (\<forall>i \<in> set (pending (run es (fresh n))).
         resolutions_for (run (es @ Close # es') (fresh n)) i = [Inl TransportLost])
   \<and> (\<forall>i \<in> set (assigned (es @ Close # es') (fresh n)).
         length (resolutions_for (run (es @ Close # es') (fresh n)) i) = 1)"
proof -
  let ?s = "run es (fresh n)"
  let ?c = "step Close ?s"
  let ?f = "run (es @ Close # es') (fresh n)"
  have f: "?f = run es' ?c" by (simp add: run_append)
  have cs: "consistent ?s" by (simp add: consistent_run consistent_fresh)
  have cf: "consistent ?f" by (simp add: consistent_run consistent_fresh)
  from close_closes [OF cs] have c: "conn ?c = Closed" "pending ?c = []" by simp_all
  from closed_run [OF c, of es'] f
  have fc: "conn ?f = Closed" and fp: "pending ?f = []" and fr: "resolutions ?f = resolutions ?c"
    by simp_all
  have lost: "\<forall>i \<in> set (pending ?s). resolutions_for ?f i = [Inl TransportLost]"
  proof
    fix i
    assume "i \<in> set (pending ?s)"
    with cs have "resolutions_for ?c i = [Inl TransportLost]" by (rule close_resolves_pending)
    with fr show "resolutions_for ?f i = [Inl TransportLost]" by (simp add: resolutions_for_def)
  qed
  have once: "\<forall>i \<in> set (assigned (es @ Close # es') (fresh n)). length (resolutions_for ?f i) = 1"
  proof
    fix i
    assume "i \<in> set (assigned (es @ Close # es') (fresh n))"
    then have "i \<in> set (map req_id (written ?f))"
      by (simp add: written_run fresh_def)
    then have "i \<in> req_id ` set (written ?f)" by simp
    with cf fp have "i \<in> fst ` set (resolutions ?f)"
      unfolding consistent_def by auto
    moreover from cf have "distinct (map fst (resolutions ?f))"
      by (simp add: consistent_def)
    ultimately show "length (resolutions_for ?f i) = 1"
      by (simp add: resolutions_for_def one_resolution)
  qed
  from fc fp lost once show ?thesis by blast
qed

theorem close_resolves_every_pending_call_once_witness:
  "pending (run [Handshake, Submit ''get_fresh_msg_cnt'' [PInt 7, PInt 42]] (fresh 5)) = [5]
   \<and> assigned ([Handshake, Submit ''get_fresh_msg_cnt'' [PInt 7, PInt 42]]
                 @ Close # [Incoming (Response 5 (Result (PInt 3))), Submit ''leave_group'' [PInt 7, PInt 42]])
        (fresh 5) = [5]
   \<and> conn (run ([Handshake, Submit ''get_fresh_msg_cnt'' [PInt 7, PInt 42]]
                 @ Close # [Incoming (Response 5 (Result (PInt 3))), Submit ''leave_group'' [PInt 7, PInt 42]])
        (fresh 5)) = Closed
   \<and> pending (run ([Handshake, Submit ''get_fresh_msg_cnt'' [PInt 7, PInt 42]]
                 @ Close # [Incoming (Response 5 (Result (PInt 3))), Submit ''leave_group'' [PInt 7, PInt 42]])
        (fresh 5)) = []
   \<and> resolutions_for (run ([Handshake, Submit ''get_fresh_msg_cnt'' [PInt 7, PInt 42]]
                 @ Close # [Incoming (Response 5 (Result (PInt 3))), Submit ''leave_group'' [PInt 7, PInt 42]])
        (fresh 5)) 5 = [Inl TransportLost]"
  using close_resolves_every_pending_call_once
    [of "[Handshake, Submit ''get_fresh_msg_cnt'' [PInt 7, PInt 42]]"
        "[Incoming (Response 5 (Result (PInt 3))), Submit ''leave_group'' [PInt 7, PInt 42]]" 5]
  by (simp add: fresh_def submit_def drainOnClose_def resolutions_for_def)

end
